theory Spec2Isabelle
  imports
    Main
    "HOL-Library.AList"
    "HOL-Library.Char_ord"
    "HOL-Library.List_Lexorder"
    "HOL-Library.Product_Lexorder"
    "HOL-Library.Sublist"
begin

section \<open>The document assistant of Solutions/lab4\_document\_assistant\_complete.py\<close>

text \<open>
  The module keeps two process-wide dictionaries, \<^verbatim>\<open>document_cache\<close> and
  \<^verbatim>\<open>tags_cache\<close>, beside three places on disk: the document directory, its
  hidden \<^verbatim>\<open>.versions\<close> subdirectory and the \<^verbatim>\<open>.tags.json\<close> file. Every tool
  is embedded as a function from the state (and the tool's arguments) to the new state
  and the returned text.

  Conventions of the embedding.
  \<^item> A Python \<^verbatim>\<open>str\<close> is a \<open>string\<close>; a \<open>char\<close> stands for the code point of the
    same number (0 to 255).
  \<^item> A dictionary is an association list in insertion order; \<open>map_of\<close> reads it,
    \<open>AList.update\<close> assigns (in place for an existing key, at the end for a new one),
    \<open>AList.delete\<close> is \<^verbatim>\<open>del\<close>.
  \<^item> The document directory is the association list \<open>docs_dir\<close>: the entry \<open>(d, c)\<close>
    is the regular file \<^verbatim>\<open>d.md\<close> holding \<open>c\<close>, listed in the order in which
    \<^verbatim>\<open>glob("*.md")\<close> yields it. The version directory \<open>versions_dir\<close> maps a file
    name to the file's content. Both hold regular files only, and an entry name has no
    path separator.
  \<^item> \<^verbatim>\<open>write_text\<close> stores the text as it is (the line separator of the platform is the
    line feed, the encoding is UTF-8); \<^verbatim>\<open>read_text\<close> opens the file with universal
    newlines, so a carriage return, alone or in front of a line feed, is read as a line
    feed (\<open>universal_newlines\<close>).
  \<^item> \<^verbatim>\<open>restore_version\<close> builds its two paths from arguments it never validates. A
    name with a separator is resolved from the directory it is joined to (\<open>locate\<close>):
    it may name a file of the other directory, a file of the parent of the document
    directory, or a place the state does not describe.
  \<^item> \<^verbatim>\<open>datetime.now().strftime("%Y%m%d_%H%M%S")\<close> is the argument \<open>ts\<close> of every
    tool that may take a snapshot: the clock is an input of the call.
  \<^item> An exception that leaves a tool is the result \<open>Inl\<close>; the state returned with it
    is the state at the moment of the raise. \<open>Inl OutsideState\<close> is no exception: it
    marks a call whose outcome depends on files the state does not describe, and
    nothing is stated about such a call.
\<close>

subsection \<open>Strings\<close>

definition quote :: "string \<Rightarrow> string" where
  "quote s = [CHR 0x27] @ s @ [CHR 0x27]"

fun digit_char :: "nat \<Rightarrow> char" where
  "digit_char n = char_of (48 + n)"

fun str_nat :: "nat \<Rightarrow> string" where
  "str_nat n = (if n < 10 then [digit_char n] else str_nat (n div 10) @ [digit_char (n mod 10)])"

declare str_nat.simps [simp del]

fun py_join :: "string \<Rightarrow> string list \<Rightarrow> string" where
  "py_join sep [] = []"
| "py_join sep [x] = x"
| "py_join sep (x # y # ys) = x @ sep @ py_join sep (y # ys)"

text \<open>\<^verbatim>\<open>str.lower\<close> on the code points below 256: the ASCII capitals and the Latin-1
  capitals (0xC0 to 0xDE without the multiplication sign 0xD7) move up by 32.\<close>

definition py_lower_char :: "char \<Rightarrow> char" where
  "py_lower_char c =
     (let n = (of_char c :: nat)
      in if (65 \<le> n \<and> n \<le> 90) \<or> (192 \<le> n \<and> n \<le> 222 \<and> n \<noteq> 215)
         then char_of (n + 32) else c)"

definition py_lower :: "string \<Rightarrow> string" where
  "py_lower s = map py_lower_char s"

text \<open>\<^verbatim>\<open>str.isspace\<close> on the code points below 256.\<close>

definition py_isspace :: "char \<Rightarrow> bool" where
  "py_isspace c =
     (let n = (of_char c :: nat)
      in (9 \<le> n \<and> n \<le> 13) \<or> (28 \<le> n \<and> n \<le> 32) \<or> n = 133 \<or> n = 160)"

definition py_strip :: "string \<Rightarrow> string" where
  "py_strip s = rev (dropWhile py_isspace (rev (dropWhile py_isspace s)))"

text \<open>The character class \<^verbatim>\<open>[a-zA-Z0-9_-]\<close>.\<close>

definition id_char :: "char \<Rightarrow> bool" where
  "id_char c =
     (let n = (of_char c :: nat)
      in (97 \<le> n \<and> n \<le> 122) \<or> (65 \<le> n \<and> n \<le> 90) \<or> (48 \<le> n \<and> n \<le> 57)
         \<or> n = 95 \<or> n = 45)"

text \<open>\<^verbatim>\<open>re.match(r'^[a-zA-Z0-9_-]+$', doc_id)\<close>: one or more characters of the class up
  to the end of the string, where \<^verbatim>\<open>$\<close> also matches just before a final line feed.\<close>

definition re_match_id :: "string \<Rightarrow> bool" where
  "re_match_id d =
     (let w = (if d \<noteq> [] \<and> last d = CHR 0x0A then butlast d else d)
      in w \<noteq> [] \<and> list_all id_char w)"

text \<open>The size in bytes of a text written in UTF-8: one byte below 128, two up to 255.\<close>

definition st_size :: "string \<Rightarrow> nat" where
  "st_size s = sum_list (map (\<lambda>c. if (of_char c :: nat) < 128 then 1 else 2) s)"

text \<open>What \<^verbatim>\<open>read_text\<close> makes of the stored text: universal newlines.\<close>

fun universal_newlines :: "string \<Rightarrow> string" where
  "universal_newlines [] = []"
| "universal_newlines [c] = (if c = CHR 0x0D then [CHR 0x0A] else [c])"
| "universal_newlines (c # c' # cs) =
     (if c = CHR 0x0D
      then (if c' = CHR 0x0A then CHR 0x0A # universal_newlines cs
            else CHR 0x0A # universal_newlines (c' # cs))
      else c # universal_newlines (c' # cs))"

definition read_text :: "(string \<times> string) list \<Rightarrow> string \<Rightarrow> string option" where
  "read_text files name = map_option universal_newlines (map_of files name)"

subsection \<open>The state\<close>

text \<open>An entry of \<^verbatim>\<open>document_cache\<close>, built from the identifier and the stored text of
  the file: the content is the text as read, the size is that of the file. The fields \<^verbatim>\<open>path\<close> and \<^verbatim>\<open>modified\<close> (the
  absolute path and the file's modification time) are left out: no tool embedded here
  reads them.\<close>

record document =
  id_field :: string
  filename :: string
  content :: string
  size_field :: nat

record state =
  docs_dir :: "(string \<times> string) list"
  versions_dir :: "(string \<times> string) list"
  tags_file :: "(string \<times> string list) list option"
  document_cache :: "(string \<times> document) list"
  tags_cache :: "(string \<times> string list) list"

definition read_document :: "string \<Rightarrow> string \<Rightarrow> document" where
  "read_document d c =
     \<lparr>id_field = d, filename = d @ ''.md'', content = universal_newlines c,
      size_field = st_size c\<rparr>"

definition scan_documents :: "(string \<times> string) list \<Rightarrow> (string \<times> document) list" where
  "scan_documents files = map (\<lambda>(d, c). (d, read_document d c)) files"

definition load_documents :: "state \<Rightarrow> state" where
  "load_documents s = s\<lparr>document_cache := scan_documents (docs_dir s)\<rparr>"

definition load_tags :: "state \<Rightarrow> state" where
  "load_tags s = s\<lparr>tags_cache := (case tags_file s of Some t \<Rightarrow> t | None \<Rightarrow> [])\<rparr>"

definition save_tags :: "state \<Rightarrow> state" where
  "save_tags s = s\<lparr>tags_file := Some (tags_cache s)\<rparr>"

abbreviation has_key :: "'k \<Rightarrow> ('k \<times> 'v) list \<Rightarrow> bool" where
  "has_key k al \<equiv> k \<in> fst ` set al"

datatype py_error = FileNotFoundError | OutsideState

subsection \<open>Messages\<close>

definition msg_not_found :: "string \<Rightarrow> string" where
  "msg_not_found d = ''Error: Document '' @ quote d @ '' not found.''"

definition msg_version_not_found :: "string \<Rightarrow> string \<Rightarrow> string" where
  "msg_version_not_found d v =
     ''Error: Version '' @ quote v @ '' not found for document '' @ quote d @ ''.''"

subsection \<open>Version history: snapshots, update, restore\<close>

definition version_file :: "string \<Rightarrow> string \<Rightarrow> string" where
  "version_file d v = d @ ''_'' @ v @ ''.md''"

definition save_version :: "state \<Rightarrow> string \<Rightarrow> string \<Rightarrow> state" where
  "save_version s d ts =
     (case map_of (document_cache s) d of
        None \<Rightarrow> s
      | Some doc \<Rightarrow>
          s\<lparr>versions_dir := AList.update (version_file d ts) (content doc) (versions_dir s)\<rparr>)"

definition write_document :: "state \<Rightarrow> string \<Rightarrow> string \<Rightarrow> state" where
  "write_document s d c = s\<lparr>docs_dir := AList.update d c (docs_dir s)\<rparr>"

definition update_document :: "state \<Rightarrow> string \<Rightarrow> string \<Rightarrow> string \<Rightarrow> state \<times> string" where
  "update_document s d new_content ts =
     (if \<not> has_key d (document_cache s) then (s, msg_not_found d)
      else
        let s1 = save_version s d ts;
            s2 = write_document s1 d new_content;
            s3 = load_documents s2
        in (s3, ''Updated document '' @ quote d @ ''. Previous version saved.''))"

text \<open>Where a relative path leads. \<^verbatim>\<open>VERSIONS_DIR\<close> is the subdirectory
  \<^verbatim>\<open>.versions\<close> of \<^verbatim>\<open>DOCUMENTS_DIR\<close>. Empty components and \<^verbatim>\<open>.\<close> are dropped,
  \<^verbatim>\<open>..\<close> is the parent; the version directory has no subdirectory; any other
  directory is not described by the state.\<close>

datatype place = InVersions | InDocs | InParent

datatype location =
    DocFile string
  | VersionFile string
  | ParentFile string
  | NoSuchPath
  | Elsewhere

fun split_path :: "string \<Rightarrow> string list" where
  "split_path [] = [[]]"
| "split_path (c # cs) =
     (if c = CHR ''/'' then [] # split_path cs
      else case split_path cs of [] \<Rightarrow> [[c]] | p # ps \<Rightarrow> (c # p) # ps)"

definition md_key :: "string \<Rightarrow> string option" where
  "md_key name = (if suffix ''.md'' name then Some (take (length name - 3) name) else None)"

fun walk :: "place \<Rightarrow> string list \<Rightarrow> location" where
  "walk p [] = Elsewhere"
| "walk p [name] =
     (if name = [] \<or> name = ''.'' \<or> name = ''..'' then Elsewhere
      else case p of
             InVersions \<Rightarrow> VersionFile name
           | InDocs \<Rightarrow> (case md_key name of Some k \<Rightarrow> DocFile k | None \<Rightarrow> Elsewhere)
           | InParent \<Rightarrow> ParentFile name)"
| "walk p (c # cs) =
     (if c = [] \<or> c = ''.'' then walk p cs
      else if c = ''..''
      then (case p of InVersions \<Rightarrow> walk InDocs cs | InDocs \<Rightarrow> walk InParent cs
            | InParent \<Rightarrow> Elsewhere)
      else if p = InDocs \<and> c = ''.versions'' then walk InVersions cs
      else if p = InVersions then NoSuchPath
      else Elsewhere)"

definition locate :: "place \<Rightarrow> string \<Rightarrow> location" where
  "locate p name =
     (if name \<noteq> [] \<and> hd name = CHR ''/'' then Elsewhere else walk p (split_path name))"

text \<open>The file found at a location: \<open>None\<close> when the state does not tell,
  \<open>Some None\<close> when there is no file, else the stored text. Writing there: \<open>None\<close>
  when the state does not tell what the write does; a file of the parent directory is
  written outside the state.\<close>

fun file_at :: "state \<Rightarrow> location \<Rightarrow> string option option" where
  "file_at s (DocFile k) = Some (map_of (docs_dir s) k)"
| "file_at s (VersionFile n) = Some (map_of (versions_dir s) n)"
| "file_at s NoSuchPath = Some None"
| "file_at s (ParentFile n) = None"
| "file_at s Elsewhere = None"

fun write_at :: "state \<Rightarrow> location \<Rightarrow> string \<Rightarrow> state option" where
  "write_at s (DocFile k) c = Some (write_document s k c)"
| "write_at s (VersionFile n) c = Some (s\<lparr>versions_dir := AList.update n c (versions_dir s)\<rparr>)"
| "write_at s (ParentFile n) c = Some s"
| "write_at s NoSuchPath c = None"
| "write_at s Elsewhere c = None"

text \<open>The two paths of \<^verbatim>\<open>restore_version\<close>. A name that is an entry of the version
  directory, or has no separator, is that entry; any other name is resolved as a
  path.\<close>

definition version_path :: "state \<Rightarrow> string \<Rightarrow> string \<Rightarrow> location" where
  "version_path s d v =
     (if has_key (version_file d v) (versions_dir s) \<or> CHR ''/'' \<notin> set (version_file d v)
      then VersionFile (version_file d v)
      else locate InVersions (version_file d v))"

definition document_path :: "state \<Rightarrow> string \<Rightarrow> string \<Rightarrow> location" where
  "document_path s d v =
     (if has_key (version_file d v) (versions_dir s) \<or> CHR ''/'' \<notin> set d
      then DocFile d
      else locate InDocs (d @ ''.md''))"

definition restore_version ::
  "state \<Rightarrow> string \<Rightarrow> string \<Rightarrow> string \<Rightarrow> state \<times> (py_error + string)" where
  "restore_version s d v ts =
     (case file_at s (version_path s d v) of
        None \<Rightarrow> (s, Inl OutsideState)
      | Some None \<Rightarrow> (s, Inr (msg_version_not_found d v))
      | Some (Some _) \<Rightarrow>
          let s1 = (if has_key d (document_cache s) then save_version s d ts else s)
          in case file_at s1 (version_path s d v) of
               None \<Rightarrow> (s1, Inl OutsideState)
             | Some None \<Rightarrow> (s1, Inl FileNotFoundError)
             | Some (Some stored) \<Rightarrow>
                 (case write_at s1 (document_path s d v) (universal_newlines stored) of
                    None \<Rightarrow> (s1, Inl OutsideState)
                  | Some s2 \<Rightarrow>
                      (load_documents s2,
                       Inr (''Restored document '' @ quote d @ '' to version '' @ quote v))))"

definition get_document :: "state \<Rightarrow> string \<Rightarrow> string" where
  "get_document s d =
     (case map_of (document_cache s) d of
        None \<Rightarrow> msg_not_found d
      | Some doc \<Rightarrow> content doc)"

subsection \<open>Creating and deleting documents\<close>

definition create_document ::
  "state \<Rightarrow> string \<Rightarrow> string \<Rightarrow> bool \<Rightarrow> string \<Rightarrow> state \<times> string" where
  "create_document s d c overwrite ts =
     (if d = [] \<or> \<not> re_match_id d
      then (s, ''Error: doc_id must contain only letters, numbers, underscores, and hyphens.'')
      else if has_key d (docs_dir s) \<and> \<not> overwrite
      then (s, ''Error: Document '' @ quote d
                 @ '' already exists. Use overwrite=True to replace it.'')
      else
        let s1 = (if has_key d (docs_dir s) \<and> overwrite then save_version s d ts else s);
            s2 = write_document s1 d c;
            s3 = load_documents s2
        in (s3, ''Successfully created document '' @ quote d @ '' (''
                  @ str_nat (length c) @ '' characters)''))"

definition delete_document ::
  "state \<Rightarrow> string \<Rightarrow> bool \<Rightarrow> string \<Rightarrow> state \<times> (py_error + string)" where
  "delete_document s d confirm ts =
     (if \<not> has_key d (document_cache s) then (s, Inr (msg_not_found d))
      else if \<not> confirm
      then (s, Inr (''Warning: This will delete '' @ quote d
                     @ ''. Call again with confirm=True to proceed.''))
      else
        let s1 = save_version s d ts
        in if \<not> has_key d (docs_dir s1) then (s1, Inl FileNotFoundError)
           else
             let s2 = s1\<lparr>docs_dir := AList.delete d (docs_dir s1)\<rparr>;
                 s3 = (if has_key d (tags_cache s2)
                       then save_tags (s2\<lparr>tags_cache := AList.delete d (tags_cache s2)\<rparr>)
                       else s2);
                 s4 = load_documents s3
             in (s4, Inr (''Successfully deleted document '' @ quote d)))"

subsection \<open>Tags\<close>

definition normalize_tag :: "string \<Rightarrow> string" where
  "normalize_tag tag = py_strip (py_lower tag)"


definition remove_tag :: "state \<Rightarrow> string \<Rightarrow> string \<Rightarrow> state \<times> string" where
  "remove_tag s d tag =
     (if \<not> has_key d (document_cache s) then (s, msg_not_found d)
      else
        let t = normalize_tag tag
        in case map_of (tags_cache s) d of
             None \<Rightarrow> (s, ''Tag '' @ quote t @ '' not found on document '' @ quote d @ ''.'')
           | Some doc_tags \<Rightarrow>
               if t \<notin> set doc_tags
               then (s, ''Tag '' @ quote t @ '' not found on document '' @ quote d @ ''.'')
               else (save_tags (s\<lparr>tags_cache := AList.update d (remove1 t doc_tags) (tags_cache s)\<rparr>),
                     ''Removed tag '' @ quote t @ '' from document '' @ quote d))"




subsection \<open>Search\<close>

text \<open>The pattern is \<^verbatim>\<open>re.escape(query)\<close>, so it matches the query's characters one by
  one; under \<^verbatim>\<open>re.IGNORECASE\<close> two characters match when their lower-case forms agree.\<close>

definition char_match :: "bool \<Rightarrow> char \<Rightarrow> char \<Rightarrow> bool" where
  "char_match case_sensitive a b =
     (if case_sensitive then a = b else py_lower_char a = py_lower_char b)"

fun match_here :: "bool \<Rightarrow> string \<Rightarrow> string \<Rightarrow> bool" where
  "match_here cs [] t = True"
| "match_here cs (q # qs) [] = False"
| "match_here cs (q # qs) (c # t) = (char_match cs q c \<and> match_here cs qs t)"

text \<open>\<^verbatim>\<open>re.finditer\<close>: the start offsets of the matches found from left to right, the
  scan resuming at the end of each match (the empty pattern matches at every offset).\<close>

function finditer :: "bool \<Rightarrow> string \<Rightarrow> string \<Rightarrow> nat \<Rightarrow> nat list" where
  "finditer cs q t pos =
     (if q = [] then [pos ..< pos + length t + 1]
      else if t = [] then []
      else if match_here cs q t
      then pos # finditer cs q (drop (length q) t) (pos + length q)
      else finditer cs q (tl t) (pos + 1))"
  by pat_completeness auto
termination
  by (relation "measure (\<lambda>(cs, q, t, pos). length t)") auto

declare finditer.simps [simp del]

record search_result =
  sr_doc_id :: string
  sr_filename :: string
  match_count :: nat
  excerpt :: string

definition make_excerpt :: "string \<Rightarrow> nat \<Rightarrow> nat \<Rightarrow> string" where
  "make_excerpt c m_start m_end =
     (let start = m_start - 50;
          end_pos = min (length c) (m_end + 50);
          e0 = map (\<lambda>x. if x = CHR 0x0A then CHR '' '' else x) (take (end_pos - start) (drop start c));
          e1 = (if start > 0 then ''...'' @ e0 else e0)
      in if end_pos < length c then e1 @ ''...'' else e1)"

definition search_one :: "string \<Rightarrow> bool \<Rightarrow> string \<times> document \<Rightarrow> search_result list" where
  "search_one query cs entry =
     (let c = content (snd entry);
          matches = finditer cs query c 0
      in case matches of
           [] \<Rightarrow> []
         | first_match # _ \<Rightarrow>
             [\<lparr>sr_doc_id = fst entry, sr_filename = filename (snd entry),
               match_count = length matches,
               excerpt = make_excerpt c first_match (first_match + length query)\<rparr>])"

definition search_results :: "state \<Rightarrow> string \<Rightarrow> bool \<Rightarrow> search_result list" where
  "search_results s query cs = concat (map (search_one query cs) (document_cache s))"

definition result_lines :: "search_result \<Rightarrow> string list" where
  "result_lines r =
     [[CHR 0x0A] @ ''Document: '' @ sr_doc_id r,
      ''  Matches: '' @ str_nat (match_count r),
      ''  Excerpt: '' @ excerpt r]"

definition search_documents :: "state \<Rightarrow> string \<Rightarrow> bool \<Rightarrow> string" where
  "search_documents s query cs =
     (if py_strip query = [] then ''Error: Please provide a search query.''
      else
        let results = search_results s query cs
        in if results = [] then ''No documents found containing '' @ quote query @ ''.''
           else py_join [CHR 0x0A]
                  ([''Found '' @ str_nat (length results) @ '' document(s) matching ''
                      @ quote query @ '':'',
                    replicate 50 (CHR ''='')]
                   @ concat (map result_lines results)))"

subsection \<open>Listing versions\<close>

text \<open>\<^verbatim>\<open>str.replace(old, new)\<close>: every occurrence found from left to right is replaced,
  the scan resuming after it.\<close>

function py_replace :: "string \<Rightarrow> string \<Rightarrow> string \<Rightarrow> string" where
  "py_replace old new t =
     (if old = [] then new @ concat (map (\<lambda>c. c # new) t)
      else if t = [] then []
      else if prefix old t then new @ py_replace old new (drop (length old) t)
      else hd t # py_replace old new (tl t))"
  by pat_completeness auto
termination
  by (relation "measure (\<lambda>(old, new, t). length t)") auto

declare py_replace.simps [simp del]

text \<open>\<^verbatim>\<open>PurePath.stem\<close>: the name without its last suffix; a dot that is the first or the
  last character of the name starts no suffix.\<close>

definition path_stem :: "string \<Rightarrow> string" where
  "path_stem name =
     (let k = length (takeWhile (\<lambda>c. c \<noteq> CHR ''.'') (rev name))
      in if k < length name \<and> 0 < length name - 1 - k \<and> 0 < k
         then take (length name - 1 - k) name else name)"

text \<open>\<^verbatim>\<open>VERSIONS_DIR.glob(f"{doc_id}_*.md")\<close> for a \<^verbatim>\<open>doc_id\<close> free of the glob
  metacharacters \<^verbatim>\<open>*\<close>, \<^verbatim>\<open>?\<close> and \<^verbatim>\<open>[\<close>: the names that start with \<^verbatim>\<open>doc_id_\<close> and
  end, after that, with \<^verbatim>\<open>.md\<close>.\<close>

definition glob_versions :: "string \<Rightarrow> string \<Rightarrow> bool" where
  "glob_versions d name = (prefix (d @ ''_'') name \<and> suffix ''.md'' (drop (length d + 1) name))"

text \<open>One version of the listing: the label cut out of the file name, the date (the
  parameter \<open>strptime\<close> is \<^verbatim>\<open>datetime.strptime(_, "%Y%m%d_%H%M%S")\<close> followed by
  \<^verbatim>\<open>strftime("%Y-%m-%d %H:%M:%S")\<close>, \<open>None\<close> for a \<^verbatim>\<open>ValueError\<close>) and the size.\<close>

record version_entry =
  timestamp_str :: string
  formatted_time :: string
  version_size :: nat

definition version_info ::
  "(string \<Rightarrow> string option) \<Rightarrow> string \<Rightarrow> string \<times> string \<Rightarrow> version_entry" where
  "version_info strptime d file =
     (let ts = py_replace (d @ ''_'') [] (path_stem (fst file))
      in \<lparr>timestamp_str = ts,
          formatted_time = (case strptime ts of Some f \<Rightarrow> f | None \<Rightarrow> ts),
          version_size = st_size (snd file)\<rparr>)"

definition version_entries ::
  "(string \<Rightarrow> string option) \<Rightarrow> state \<Rightarrow> string \<Rightarrow> version_entry list" where
  "version_entries strptime s d =
     map (version_info strptime d)
         (rev (sort_key fst (filter (\<lambda>file. glob_versions d (fst file)) (versions_dir s))))"

definition list_versions :: "(string \<Rightarrow> string option) \<Rightarrow> state \<Rightarrow> string \<Rightarrow> string" where
  "list_versions strptime s d =
     (let entries = version_entries strptime s d
      in if entries = [] then ''No previous versions found for '' @ quote d @ ''.''
         else py_join [CHR 0x0A]
                ([''Versions of '' @ quote d @ '':'', replicate 40 (CHR ''='')]
                 @ concat (map (\<lambda>e. [[CHR 0x0A] @ ''  Version: '' @ timestamp_str e,
                                       ''    Date: '' @ formatted_time e,
                                       ''    Size: '' @ str_nat (version_size e) @ '' bytes''])
                               entries)))"

subsection \<open>Example stores\<close>

text \<open>A store holding the single document \<^verbatim>\<open>a\<close>, cache loaded.\<close>

definition store_a :: state where
  "store_a = \<lparr>docs_dir = [(''a'', ''hello world'')], versions_dir = [], tags_file = None,
     document_cache = [(''a'', read_document ''a'' ''hello world'')], tags_cache = []\<rparr>"

text \<open>A store whose document \<^verbatim>\<open>a\<close> is gone while a snapshot and a tag entry of it
  remain.\<close>

definition orphan_tags :: state where
  "orphan_tags = \<lparr>docs_dir = [], versions_dir = [(''a_20240101_120000.md'', ''hello world'')],
     tags_file = Some [(''a'', [''draft''])],
     document_cache = [], tags_cache = [(''a'', [''draft''])]\<rparr>"

text \<open>Two readings of the clock, and the store \<open>store_a\<close> after one update.\<close>

definition stamp1 :: string where
  "stamp1 = ''20240101_120000''"


definition store_a_updated :: state where
  "store_a_updated = fst (update_document store_a ''a'' ''new'' stamp1)"


definition store_a_underscore :: state where
  "store_a_underscore = \<lparr>docs_dir = [(''a_'', ''notes'')], versions_dir = [], tags_file = None,
     document_cache = [(''a_'', read_document ''a_'' ''notes'')], tags_cache = []\<rparr>"

text \<open>\<^verbatim>\<open>tags_cache.get(doc_id, [])\<close>, the number of entries of a tag in a tag index, the
  looked-up count of \<^verbatim>\<open>tag_counts.get(tag, 0)\<close>, and two calls of \<^verbatim>\<open>add_tag\<close> in a
  row.\<close>

definition doc_tags :: "state \<Rightarrow> string \<Rightarrow> string list" where
  "doc_tags s d = (case map_of (tags_cache s) d of None \<Rightarrow> [] | Some l \<Rightarrow> l)"





text \<open>The excerpt in the words of the specification, for comparison with
  \<open>make_excerpt\<close>: up to 50 characters before the match, the matched characters, up to
  50 characters after it, line feeds shown as spaces, with an ellipsis on each side on
  which the document goes on.\<close>

definition flatten_newlines :: "string \<Rightarrow> string" where
  "flatten_newlines t = map (\<lambda>x. if x = CHR 0x0A then CHR '' '' else x) t"

definition spec_excerpt :: "string \<Rightarrow> string \<Rightarrow> nat \<Rightarrow> string" where
  "spec_excerpt c q m =
     (if 50 < m then ''...'' else [])
     @ flatten_newlines (drop (m - 50) (take m c) @ take (length q) (drop m c)
                         @ take 50 (drop (m + length q) c))
     @ (if m + length q + 50 < length c then ''...'' else [])"

text \<open>A store with the documents \<^verbatim>\<open>a\<close> and \<^verbatim>\<open>a_b\<close>, before and after an update of
  \<^verbatim>\<open>a_b\<close>, and a store with the document \<^verbatim>\<open>1\<close>.\<close>

definition store_prefix :: state where
  "store_prefix = \<lparr>docs_dir = [(''a'', ''hello world''), (''a_b'', ''notes'')],
     versions_dir = [], tags_file = None,
     document_cache = [(''a'', read_document ''a'' ''hello world''),
                       (''a_b'', read_document ''a_b'' ''notes'')],
     tags_cache = []\<rparr>"

definition store_prefix_updated :: state where
  "store_prefix_updated = fst (update_document store_prefix ''a_b'' ''more notes'' stamp1)"

definition store_digit :: state where
  "store_digit = \<lparr>docs_dir = [(''1'', ''one'')], versions_dir = [], tags_file = None,
     document_cache = [(''1'', read_document ''1'' ''one'')], tags_cache = []\<rparr>"

text \<open>A store whose document is longer than the excerpt window on both sides of the
  match, with line feeds inside the window.\<close>

definition long_text :: string where
  "long_text = replicate 60 (CHR ''x'') @ [CHR 0x0A] @ ''needle'' @ [CHR 0x0A]
               @ replicate 60 (CHR ''y'')"

definition store_long :: state where
  "store_long = \<lparr>docs_dir = [(''long'', long_text)], versions_dir = [], tags_file = None,
     document_cache = [(''long'', read_document ''long'' long_text)], tags_cache = []\<rparr>"

section \<open>Properties\<close>

subsection \<open>Auxiliary facts\<close>


lemma universal_newlines_id: "CHR 0x0D \<notin> set t \<Longrightarrow> universal_newlines t = t"
  by (induction t rule: universal_newlines.induct) auto



lemma read_text_stored:
  "read_text files name = Some c \<Longrightarrow> \<exists>stored. map_of files name = Some stored \<and> c = universal_newlines stored"
  by (auto simp: read_text_def)


lemma map_of_scan_documents:
  "map_of (scan_documents files) d = map_option (read_document d) (map_of files d)"
  by (induction files) (auto simp: scan_documents_def)



lemma has_key_map_of: "has_key k al \<longleftrightarrow> map_of al k \<noteq> None"
  by (simp add: map_of_eq_None_iff)

lemma normalize_Draft: "normalize_tag ''Draft'' = ''draft''"
  by code_simp


lemma store_a_updated_eq:
  "store_a_updated = \<lparr>docs_dir = [(''a'', ''new'')],
     versions_dir = [(''a_20240101_120000.md'', ''hello world'')], tags_file = None,
     document_cache = [(''a'', read_document ''a'' ''new'')], tags_cache = []\<rparr>"
  by (simp add: store_a_updated_def store_a_def update_document_def save_version_def
      write_document_def load_documents_def scan_documents_def version_file_def stamp1_def
      read_document_def)

lemma version_file_inject [simp]: "version_file d v = version_file d v' \<longleftrightarrow> v = v'"
  by (simp add: version_file_def)

lemma identifier_matches: "d \<noteq> [] \<Longrightarrow> list_all id_char d \<Longrightarrow> re_match_id d"
proof -
  assume d: "d \<noteq> []" and all: "list_all id_char d"
  have "\<not> id_char (CHR 0x0A)" by code_simp
  moreover from d all have "id_char (last d)"
    by (simp add: list_all_iff)
  ultimately have "last d \<noteq> CHR 0x0A" by metis
  with d all show ?thesis by (simp add: re_match_id_def)
qed

lemma id_char_a: "id_char (CHR ''a'')" by code_simp










lemma py_strip_Nil: "py_strip [] = []"
  by (simp add: py_strip_def)

lemma match_here_length: "match_here cs q t \<Longrightarrow> length q \<le> length t"
  by (induction cs q t rule: match_here.induct) auto

lemma finditer_first:
  "q \<noteq> [] \<Longrightarrow> finditer cs q t pos = m # ms \<Longrightarrow>
   pos \<le> m \<and> match_here cs q (drop (m - pos) t)
   \<and> (\<forall>i < m - pos. \<not> match_here cs q (drop i t))"
proof (induction cs q t pos rule: finditer.induct)
  case (1 cs q t pos)
  show ?case
  proof (cases "t = []")
    case True
    with "1.prems" show ?thesis by (simp add: finditer.simps)
  next
    case nonempty: False
    show ?thesis
    proof (cases "match_here cs q t")
      case True
      with "1.prems" nonempty have "m = pos"
        by (simp add: finditer.simps [of cs q t pos])
      with True show ?thesis by simp
    next
      case False
      with "1.prems" nonempty have rec: "finditer cs q (tl t) (pos + 1) = m # ms"
        by (simp add: finditer.simps [of cs q t pos])
      from "1.IH"(2) [OF "1.prems"(1) nonempty False "1.prems"(1) rec]
      have le: "pos + 1 \<le> m" and here: "match_here cs q (drop (m - (pos + 1)) (tl t))"
        and before: "\<forall>i < m - (pos + 1). \<not> match_here cs q (drop i (tl t))"
        by simp_all
      from le obtain k where k: "m - pos = Suc k" and k': "m - (pos + 1) = k"
        by (metis Suc_diff_Suc Suc_eq_plus1 Suc_le_lessD diff_diff_left)
      have "\<not> match_here cs q (drop i t)" if "i < m - pos" for i
      proof (cases i)
        case 0
        with False show ?thesis by simp
      next
        case (Suc j)
        with that k k' have "j < m - (pos + 1)" by simp
        with before have "\<not> match_here cs q (drop j (tl t))" by simp
        with Suc show ?thesis by (simp add: drop_Suc)
      qed
      moreover from here k k' have "match_here cs q (drop (m - pos) t)"
        by (simp add: drop_Suc)
      ultimately show ?thesis using le by simp
    qed
  qed
qed

lemma finditer_finds:
  "q \<noteq> [] \<Longrightarrow> match_here cs q (drop i t) \<Longrightarrow> finditer cs q t pos \<noteq> []"
proof (induction cs q t pos arbitrary: i rule: finditer.induct)
  case (1 cs q t pos)
  show ?case
  proof (cases "t = []")
    case True
    with "1.prems" show ?thesis by (cases q) simp_all
  next
    case nonempty: False
    show ?thesis
    proof (cases "match_here cs q t")
      case True
      with "1.prems"(1) nonempty show ?thesis
        by (simp add: finditer.simps [of cs q t pos])
    next
      case False
      with "1.prems"(2) obtain j where "i = Suc j" by (cases i) auto
      with "1.prems"(2) have "match_here cs q (drop j (tl t))" by (simp add: drop_Suc)
      from "1.IH"(2) [OF "1.prems"(1) nonempty False "1.prems"(1) this]
      show ?thesis using "1.prems"(1) nonempty False
        by (simp add: finditer.simps [of cs q t pos])
    qed
  qed
qed

lemma window_split:
  assumes "m + n \<le> length c"
  shows "take (min (length c) (m + n + 50) - (m - 50)) (drop (m - 50) c)
         = drop (m - 50) (take m c) @ take n (drop m c) @ take 50 (drop (m + n) c)"
proof -
  have m: "m \<le> length c" using assms by simp
  have c: "drop (m - 50) c = drop (m - 50) (take m c) @ drop m c"
  proof -
    have "drop (m - 50) c = drop (m - 50) (take m c @ drop m c)" by simp
    also have "\<dots> = drop (m - 50) (take m c) @ drop (m - 50 - length (take m c)) (drop m c)"
      by (rule drop_append)
    also have "m - 50 - length (take m c) = 0" using m by simp
    finally show ?thesis by simp
  qed
  have len: "length (drop (m - 50) (take m c)) = m - (m - 50)"
    using m by simp
  have "take (min (length c) (m + n + 50) - (m - 50)) (drop (m - 50) c)
      = drop (m - 50) (take m c)
        @ take (min (length c) (m + n + 50) - (m - 50) - (m - (m - 50))) (drop m c)"
    using m assms by (subst c) (simp add: len)
  also have "min (length c) (m + n + 50) - (m - 50) - (m - (m - 50))
      = min (length c - m) (n + 50)"
    using m by auto
  also have "take (min (length c - m) (n + 50)) (drop m c) = take (n + 50) (drop m c)"
    by (simp add: min_def)
  also have "take (n + 50) (drop m c) = take n (drop m c) @ take 50 (drop (m + n) c)"
    by (simp add: take_add add.commute)
  finally show ?thesis .
qed

lemma make_excerpt_spec:
  assumes "m + length q \<le> length c"
  shows "make_excerpt c m (m + length q) = spec_excerpt c q m"
proof -
  have w: "take (min (length c) (m + length q + 50) - (m - 50)) (drop (m - 50) c)
      = drop (m - 50) (take m c) @ take (length q) (drop m c)
        @ take 50 (drop (m + length q) c)"
    using assms by (rule window_split)
  have s: "(0 < m - 50) = (50 < m)" by auto
  have e: "(min (length c) (m + length q + 50) < length c) = (m + length q + 50 < length c)"
    by auto
  show ?thesis
    unfolding make_excerpt_def spec_excerpt_def Let_def flatten_newlines_def w s e by simp
qed

lemma strip_space: "py_strip '' '' = []" by code_simp

lemma py_join_append:
  "xs \<noteq> [] \<Longrightarrow>
   py_join sep (xs @ ys) = py_join sep xs @ (if ys = [] then [] else sep @ py_join sep ys)"
proof (induction sep xs rule: py_join.induct)
  case (1 sep)
  then show ?case by simp
next
  case (2 sep x)
  then show ?case by (cases ys) simp_all
next
  case (3 sep x y ys')
  then show ?case by simp
qed

lemma filter_search_one:
  "filter (\<lambda>r. sr_doc_id r = d) (search_one q cs e) = (if fst e = d then search_one q cs e else [])"
  by (auto simp: search_one_def Let_def split: list.splits)

lemma concat_single_key:
  "distinct (map fst xs) \<Longrightarrow> (d, doc) \<in> set xs \<Longrightarrow>
   concat (map (\<lambda>e. if fst e = d then f e else []) xs) = f (d, doc)"
proof (induction xs)
  case Nil
  then show ?case by simp
next
  case (Cons e xs)
  show ?case
  proof (cases "e = (d, doc)")
    case True
    with Cons.prems(1) have "\<forall>e' \<in> set xs. fst e' \<noteq> d" by force
    then have "concat (map (\<lambda>e. if fst e = d then f e else []) xs) = []"
      by (induction xs) auto
    with True show ?thesis by simp
  next
    case False
    with Cons.prems have mem: "(d, doc) \<in> set xs" by simp
    then have "d \<in> set (map fst xs)" by force
    moreover from Cons.prems(1) have "fst e \<notin> set (map fst xs)" by simp
    ultimately have "fst e \<noteq> d" by auto
    with Cons.IH mem Cons.prems(1) show ?thesis by simp
  qed
qed

lemma filter_search_results:
  assumes "distinct (map fst (document_cache s))" and "(d, doc) \<in> set (document_cache s)"
  shows "filter (\<lambda>r. sr_doc_id r = d) (search_results s q cs) = search_one q cs (d, doc)"
proof -
  have "filter (\<lambda>r. sr_doc_id r = d) (search_results s q cs)
      = concat (map (\<lambda>e. if fst e = d then search_one q cs e else []) (document_cache s))"
    by (simp add: search_results_def filter_concat comp_def filter_search_one)
  with assms show ?thesis by (simp add: concat_single_key)
qed

lemma py_join_Cons:
  "py_join sep (x # xs) = x @ (if xs = [] then [] else sep @ py_join sep xs)"
  by (cases xs) simp_all

lemma rendered_block:
  assumes "r \<in> set results"
  shows "\<exists>pre post.
           py_join [CHR 0x0A] ([h1, h2] @ concat (map (\<lambda>r. [a r, b r, c r]) results))
             = pre @ [CHR 0x0A] @ a r @ [CHR 0x0A] @ b r @ [CHR 0x0A] @ c r @ post"
proof -
  from assms obtain r1 r2 where split: "results = r1 @ r # r2"
    by (auto simp: in_set_conv_decomp)
  define A where "A = [h1, h2] @ concat (map (\<lambda>r. [a r, b r, c r]) r1)"
  define B where "B = concat (map (\<lambda>r. [a r, b r, c r]) r2)"
  have A: "A \<noteq> []" by (simp add: A_def)
  have lines: "[h1, h2] @ concat (map (\<lambda>r. [a r, b r, c r]) results) = A @ (a r # b r # c r # B)"
    by (simp add: split A_def B_def)
  have "py_join [CHR 0x0A] (A @ (a r # b r # c r # B))
      = py_join [CHR 0x0A] A @ [CHR 0x0A] @ py_join [CHR 0x0A] (a r # b r # c r # B)"
    using A by (simp add: py_join_append)
  also have "py_join [CHR 0x0A] (a r # b r # c r # B)
      = a r @ [CHR 0x0A] @ b r @ [CHR 0x0A] @ py_join [CHR 0x0A] (c r # B)"
    by simp
  also have "py_join [CHR 0x0A] (c r # B)
      = c r @ (if B = [] then [] else [CHR 0x0A] @ py_join [CHR 0x0A] B)"
    by (rule py_join_Cons)
  finally have "py_join [CHR 0x0A] (A @ (a r # b r # c r # B))
      = py_join [CHR 0x0A] A @ [CHR 0x0A] @ a r @ [CHR 0x0A] @ b r @ [CHR 0x0A] @ c r
        @ (if B = [] then [] else [CHR 0x0A] @ py_join [CHR 0x0A] B)"
    by simp
  then show ?thesis unfolding lines by blast
qed

lemma strip_NEEDLE: "py_strip ''NEEDLE'' = ''NEEDLE''" by code_simp

lemma long_text_read: "universal_newlines long_text = long_text"
  by (rule universal_newlines_id) (simp add: long_text_def)

lemma match_NEEDLE: "match_here False ''NEEDLE'' (drop 61 long_text)" by code_simp

lemma finditer_NEEDLE: "finditer False ''NEEDLE'' long_text 0 = [61]" by code_simp

lemma excerpt_NEEDLE:
  "spec_excerpt long_text ''NEEDLE'' 61
     = ''...'' @ replicate 49 (CHR ''x'') @ '' needle '' @ replicate 49 (CHR ''y'') @ ''...''"
  by code_simp

lemma str_nat_1: "str_nat (Suc 0) = ''1''" by code_simp


lemma glob_versions_iff: "glob_versions d name \<longleftrightarrow> (\<exists>x. name = version_file d x)"
proof
  assume "glob_versions d name"
  then obtain r where r: "name = (d @ ''_'') @ r" and "suffix ''.md'' (drop (length d + 1) name)"
    by (auto simp: glob_versions_def prefix_def)
  then have "suffix ''.md'' r" by simp
  then obtain x where "r = x @ ''.md''" by (auto simp: suffix_def)
  with r show "\<exists>x. name = version_file d x" by (auto simp: version_file_def)
next
  assume "\<exists>x. name = version_file d x"
  then show "glob_versions d name"
    by (auto simp: glob_versions_def version_file_def suffix_def)
qed

lemma store_prefix_updated_versions:
  "versions_dir store_prefix_updated = [(''a_b_20240101_120000.md'', ''notes'')]"
  by (simp add: store_prefix_updated_def store_prefix_def update_document_def save_version_def
      write_document_def load_documents_def version_file_def stamp1_def read_document_def)

lemma glob_a: "glob_versions ''a'' ''a_b_20240101_120000.md''" by code_simp
lemma label_a: "py_replace ''a_'' [] (path_stem ''a_b_20240101_120000.md'') = ''b_20240101_120000''"
  by code_simp
lemma size_notes: "st_size ''notes'' = 5" by code_simp

lemma store_digit_versions:
  "versions_dir (fst (update_document store_digit ''1'' ''two'' stamp1))
     = [(''1_20240101_120000.md'', ''one'')]"
  by (simp add: store_digit_def update_document_def save_version_def
      write_document_def load_documents_def version_file_def stamp1_def read_document_def)

lemma glob_1: "glob_versions ''1'' ''1_20240101_120000.md''" by code_simp
lemma label_1: "py_replace ''1_'' [] (path_stem ''1_20240101_120000.md'') = ''2024010120000''"
  by code_simp

subsection \<open>Deleting without confirmation\<close>

text \<open>C3: \<^verbatim>\<open>delete_document(d, confirm=False)\<close> returns the state it was given, whatever
  \<open>d\<close> is: the file, the tag entry, the version archive and the cache are untouched. For
  a document of the cache the returned text is the warning that asks for
  \<^verbatim>\<open>confirm=True\<close>.\<close>

theorem delete_unconfirmed_no_mutation:
  "fst (delete_document s d False ts) = s
   \<and> (has_key d (document_cache s) \<longrightarrow>
        snd (delete_document s d False ts)
          = Inr (''Warning: This will delete '' @ quote d
                 @ ''. Call again with confirm=True to proceed.''))"
  by (simp add: delete_document_def)

theorem delete_unconfirmed_no_mutation_witness:
  "has_key ''a'' (document_cache store_a)
   \<and> fst (delete_document store_a ''a'' False ''20240101_120000'') = store_a
   \<and> snd (delete_document store_a ''a'' False ''20240101_120000'')
       = Inr (''Warning: This will delete '' @ quote ''a''
              @ ''. Call again with confirm=True to proceed.'')"
  using delete_unconfirmed_no_mutation [where s = store_a and ts = "''20240101_120000''" and d = "''a''"]
  by (simp add: store_a_def)


subsection \<open>Restoring a document that is not in the cache\<close>

text \<open>C9: when \<open>d\<close> is not in the cache and the snapshot file named by \<open>d\<close> and \<open>v\<close>
  exists, \<^verbatim>\<open>restore_version(d, v)\<close> succeeds, the file of \<open>d\<close> then holds the snapshot's
  content (the text \<open>c\<close> that reading the snapshot gives), and the version archive is
  the one it was: no snapshot is taken.\<close>

theorem restore_absent_document:
  assumes "\<not> has_key d (document_cache s)"
    and "read_text (versions_dir s) (version_file d v) = Some c"
  shows "snd (restore_version s d v ts)
           = Inr (''Restored document '' @ quote d @ '' to version '' @ quote v)
         \<and> map_of (docs_dir (fst (restore_version s d v ts))) d = Some c
         \<and> versions_dir (fst (restore_version s d v ts)) = versions_dir s"
proof -
  from assms(2) obtain stored
    where stored: "map_of (versions_dir s) (version_file d v) = Some stored"
      and c: "c = universal_newlines stored"
    using read_text_stored by blast
  from stored have entry: "has_key (version_file d v) (versions_dir s)"
    by (simp add: has_key_map_of)
  then have src: "version_path s d v = VersionFile (version_file d v)"
    and dst: "document_path s d v = DocFile d"
    by (simp_all add: version_path_def document_path_def)
  show ?thesis
    using assms(1) stored c
    by (simp add: restore_version_def src dst Let_def write_document_def load_documents_def
        AList.update_conv')
qed

theorem restore_absent_document_witness:
  "\<not> has_key ''a'' (document_cache orphan_tags)
   \<and> read_text (versions_dir orphan_tags) (version_file ''a'' ''20240101_120000'')
       = Some ''hello world''
   \<and> snd (restore_version orphan_tags ''a'' ''20240101_120000'' ''20240202_080000'')
       = Inr (''Restored document '' @ quote ''a'' @ '' to version '' @ quote ''20240101_120000'')
   \<and> map_of (docs_dir (fst (restore_version orphan_tags ''a'' ''20240101_120000'' ''20240202_080000''))) ''a''
       = Some ''hello world''
   \<and> versions_dir (fst (restore_version orphan_tags ''a'' ''20240101_120000'' ''20240202_080000''))
       = versions_dir orphan_tags"
  using restore_absent_document [where d = "''a''" and s = orphan_tags and v = "''20240101_120000''" and c = "''hello world''" and ts = "''20240202_080000''"]
  by (simp add: orphan_tags_def version_file_def read_text_def)


subsection \<open>Removing a tag of a document that is not in the cache\<close>

text \<open>C10: when \<open>d\<close> is not in the document cache, \<^verbatim>\<open>remove_tag(d, t)\<close> returns the
  not-found error and the state unchanged, tag index included, also when the index
  still holds an entry of \<open>d\<close> with the normalized tag.\<close>

theorem remove_tag_absent_document:
  "\<not> has_key d (document_cache s) \<Longrightarrow> remove_tag s d tag = (s, msg_not_found d)"
  by (simp add: remove_tag_def)

theorem remove_tag_absent_document_witness:
  "\<not> has_key ''a'' (document_cache orphan_tags)
   \<and> normalize_tag ''Draft'' \<in> set (the (map_of (tags_cache orphan_tags) ''a''))
   \<and> remove_tag orphan_tags ''a'' ''Draft'' = (orphan_tags, msg_not_found ''a'')"
  using remove_tag_absent_document [where d = "''a''" and s = orphan_tags and tag = "''Draft''"]
  by (simp add: orphan_tags_def normalize_Draft)

subsection \<open>Updating a document\<close>




subsection \<open>Deleting with confirmation\<close>




subsection \<open>Creating a document and reading it back\<close>

text \<open>C4, as stated, has \<^verbatim>\<open>create_document(d, c)\<close> followed by \<^verbatim>\<open>get_document(d)\<close>
  yield \<open>c\<close> for every valid identifier. With \<^verbatim>\<open>overwrite\<close> left at its default the
  call refuses an identifier whose file exists, and the old content is read back. And
  for a new identifier, a content with a carriage return is read back with a line feed
  in its place.\<close>

theorem create_existing_counterexample:
  "''a'' \<noteq> [] \<and> list_all id_char ''a''
   \<and> get_document (fst (create_document store_a ''a'' ''new'' False stamp1)) ''a'' = ''hello world''
   \<and> snd (create_document store_a ''a'' ''new'' False stamp1)
       = ''Error: Document '' @ quote ''a'' @ '' already exists. Use overwrite=True to replace it.''
   \<and> ''b'' \<noteq> [] \<and> list_all id_char ''b'' \<and> \<not> has_key ''b'' (docs_dir store_a)
   \<and> get_document (fst (create_document store_a ''b'' (''x'' @ [CHR 0x0D] @ ''y'') False stamp1))
         ''b''
       = ''x'' @ [CHR 0x0A] @ ''y''"
proof -
  have a: "re_match_id ''a''" by (rule identifier_matches) (simp_all add: id_char_a)
  have idb: "id_char (CHR ''b'')" by code_simp
  then have b: "re_match_id ''b''" by (intro identifier_matches) simp_all
  show ?thesis
    using a b
    by (simp add: id_char_a idb create_document_def store_a_def get_document_def
        read_document_def write_document_def load_documents_def scan_documents_def)
qed

text \<open>C4, amended: for an identifier \<open>d\<close> of letters, digits, underscores and hyphens
  and any content \<open>c\<close>, when \<^verbatim>\<open>overwrite\<close> is set or no file of \<open>d\<close> exists,
  \<^verbatim>\<open>create_document(d, c, overwrite)\<close> succeeds and \<^verbatim>\<open>get_document(d)\<close> then yields
  \<open>c\<close> as read back, every carriage return (alone or in front of a line feed) turned
  into a line feed: \<open>c\<close> itself when it has no carriage return.\<close>

theorem create_then_get:
  assumes "d \<noteq> []" and "list_all id_char d"
    and "overwrite \<or> \<not> has_key d (docs_dir s)"
  shows "get_document (fst (create_document s d c overwrite ts)) d = universal_newlines c
         \<and> (CHR 0x0D \<notin> set c \<longrightarrow>
              get_document (fst (create_document s d c overwrite ts)) d = c)
         \<and> snd (create_document s d c overwrite ts)
             = ''Successfully created document '' @ quote d @ '' (''
               @ str_nat (length c) @ '' characters)''"
proof -
  have ok: "re_match_id d" using assms(1,2) by (rule identifier_matches)
  have get: "get_document (load_documents (write_document s' d c)) d = universal_newlines c"
    for s'
    by (simp add: get_document_def load_documents_def write_document_def
        map_of_scan_documents AList.update_conv' read_document_def)
  show ?thesis
    using assms(1,3) ok get
    by (auto simp: create_document_def Let_def universal_newlines_id)
qed

theorem create_then_get_witness:
  "''b'' \<noteq> [] \<and> list_all id_char ''b'' \<and> (False \<or> \<not> has_key ''b'' (docs_dir store_a))
   \<and> CHR 0x0D \<notin> set ''text''
   \<and> get_document (fst (create_document store_a ''b'' ''text'' False stamp1)) ''b'' = ''text''
   \<and> snd (create_document store_a ''b'' ''text'' False stamp1)
       = ''Successfully created document '' @ quote ''b'' @ '' (''
         @ str_nat (length ''text'') @ '' characters)''"
proof -
  have b: "id_char (CHR ''b'')" by code_simp
  show ?thesis
    using create_then_get [where d = "''b''" and s = store_a and overwrite = False
        and c = "''text''" and ts = stamp1]
    by (simp add: b store_a_def)
qed

subsection \<open>Restoring a version of a cached document\<close>




text \<open>Two more runs of \<^verbatim>\<open>restore_version\<close>. Restoring \<^verbatim>\<open>a\<close> to the snapshot of the
  running second writes the current content over that snapshot before reading it: the
  call answers that it restored, the document keeps the content \<^verbatim>\<open>new\<close>, and the
  snapshot's content is lost. And the identifier \<^verbatim>\<open>../a\<close> with the empty version names
  the file of the document \<^verbatim>\<open>a_\<close>: the call answers that it restored, having written
  outside the document directory.\<close>

lemma restore_same_second_slip:
  "read_text (versions_dir store_a_updated) (version_file ''a'' stamp1) = Some ''hello world''
   \<and> get_document store_a_updated ''a'' = ''new''
   \<and> snd (restore_version store_a_updated ''a'' stamp1 stamp1)
       = Inr (''Restored document '' @ quote ''a'' @ '' to version '' @ quote stamp1)
   \<and> get_document (fst (restore_version store_a_updated ''a'' stamp1 stamp1)) ''a'' = ''new''
   \<and> versions_dir (fst (restore_version store_a_updated ''a'' stamp1 stamp1))
       = [(''a_20240101_120000.md'', ''new'')]"
  by (simp add: store_a_updated_eq restore_version_def version_path_def document_path_def
      save_version_def get_document_def read_text_def write_document_def load_documents_def
      scan_documents_def version_file_def stamp1_def read_document_def)

lemma restore_version_path_escape:
  "restore_version store_a_underscore ''../a'' [] stamp1
     = (store_a_underscore,
        Inr (''Restored document '' @ quote ''../a'' @ '' to version '' @ quote []))"
proof -
  have src: "locate InVersions ''../a_.md'' = DocFile ''a_''" by code_simp
  have dst: "locate InDocs ''../a.md'' = ParentFile ''a.md''" by code_simp
  show ?thesis
    by (simp add: store_a_underscore_def restore_version_def version_path_def
        document_path_def version_file_def src dst load_documents_def scan_documents_def)
qed

subsection \<open>Adding a tag twice\<close>




subsection \<open>Searching\<close>

text \<open>C8, as stated, covers every non-empty query. A query of white space only is not
  empty, and the document \<^verbatim>\<open>a\<close> contains it at offset 5, yet \<^verbatim>\<open>search_documents\<close>
  returns its error text and reports nothing.\<close>

theorem search_blank_query_counterexample:
  "'' '' \<noteq> [] \<and> (''a'', read_document ''a'' ''hello world'') \<in> set (document_cache store_a)
   \<and> match_here False '' '' (drop 5 (content (read_document ''a'' ''hello world'')))
   \<and> search_documents store_a '' '' False = ''Error: Please provide a search query.''"
  by (simp add: store_a_def read_document_def search_documents_def strip_space char_match_def)

text \<open>C8, amended: for every query that is not empty after stripping white space and
  every document of the cache (a dictionary: its keys are distinct) whose content
  contains a match at some offset \<open>i\<close>, the results of \<^verbatim>\<open>search_documents\<close> hold
  exactly one record for the document, with the number of matches found from left to
  right and the excerpt built at the first match \<open>m\<close> (the least offset at which the
  query matches): up to 50 characters before it, the match, up to 50 characters after
  it, line feeds replaced by spaces, an ellipsis in front exactly when more than 50
  characters precede the match and one behind exactly when more than 50 follow it. The
  returned text is the header followed by three lines for each record, and it contains
  the lines of that document with this count and this excerpt.\<close>

theorem search_reports_first_match:
  assumes "py_strip q \<noteq> []" and "distinct (map fst (document_cache s))"
    and "(d, doc) \<in> set (document_cache s)"
    and "match_here cs q (drop i (content doc))"
  shows "\<exists>m ms. finditer cs q (content doc) 0 = m # ms
           \<and> m \<le> i \<and> match_here cs q (drop m (content doc))
           \<and> (\<forall>j < m. \<not> match_here cs q (drop j (content doc)))
           \<and> filter (\<lambda>r. sr_doc_id r = d) (search_results s q cs)
               = [\<lparr>sr_doc_id = d, sr_filename = filename doc, match_count = length (m # ms),
                   excerpt = spec_excerpt (content doc) q m\<rparr>]
           \<and> search_documents s q cs
               = py_join [CHR 0x0A]
                   ([''Found '' @ str_nat (length (search_results s q cs))
                       @ '' document(s) matching '' @ quote q @ '':'',
                     replicate 50 (CHR ''='')]
                    @ concat (map (\<lambda>r. [[CHR 0x0A] @ ''Document: '' @ sr_doc_id r,
                                          ''  Matches: '' @ str_nat (match_count r),
                                          ''  Excerpt: '' @ excerpt r])
                                  (search_results s q cs)))
           \<and> (\<exists>pre post. search_documents s q cs
                 = pre @ [CHR 0x0A] @ [CHR 0x0A] @ ''Document: '' @ d
                   @ [CHR 0x0A] @ ''  Matches: '' @ str_nat (length (m # ms))
                   @ [CHR 0x0A] @ ''  Excerpt: '' @ spec_excerpt (content doc) q m @ post)"
proof -
  from assms(1) have q: "q \<noteq> []"
    using py_strip_Nil by auto
  from finditer_finds [OF q assms(4)] obtain m ms
    where found: "finditer cs q (content doc) 0 = m # ms"
    by (cases "finditer cs q (content doc) 0") auto
  from finditer_first [OF q found]
  have here: "match_here cs q (drop m (content doc))"
    and first: "\<forall>j < m. \<not> match_here cs q (drop j (content doc))"
    by simp_all
  from first assms(4) have le: "m \<le> i"
    by (meson not_le)
  from match_here_length [OF here] q have fits: "m + length q \<le> length (content doc)"
    by (cases "m \<le> length (content doc)") auto
  let ?r = "\<lparr>sr_doc_id = d, sr_filename = filename doc, match_count = length (m # ms),
             excerpt = spec_excerpt (content doc) q m\<rparr>"
  have rl: "result_lines = (\<lambda>r. [[CHR 0x0A] @ ''Document: '' @ sr_doc_id r,
                                  ''  Matches: '' @ str_nat (match_count r),
                                  ''  Excerpt: '' @ excerpt r])"
    by (rule ext) (simp add: result_lines_def)
  have one: "search_one q cs (d, doc) = [?r]"
    by (simp add: search_one_def found make_excerpt_spec [OF fits])
  have single: "filter (\<lambda>r. sr_doc_id r = d) (search_results s q cs) = [?r]"
    using filter_search_results [OF assms(2,3)] one by simp
  then have "?r \<in> set (filter (\<lambda>r. sr_doc_id r = d) (search_results s q cs))"
    by simp
  then have mem: "?r \<in> set (search_results s q cs)"
    by simp
  then have "search_results s q cs \<noteq> []" by auto
  with assms(1) have out: "search_documents s q cs
               = py_join [CHR 0x0A]
                   ([''Found '' @ str_nat (length (search_results s q cs))
                       @ '' document(s) matching '' @ quote q @ '':'',
                     replicate 50 (CHR ''='')]
                    @ concat (map (\<lambda>r. [[CHR 0x0A] @ ''Document: '' @ sr_doc_id r,
                                          ''  Matches: '' @ str_nat (match_count r),
                                          ''  Excerpt: '' @ excerpt r])
                                  (search_results s q cs)))"
    by (simp add: search_documents_def Let_def rl)
  from rendered_block [OF mem, of "''Found '' @ str_nat (length (search_results s q cs))
                       @ '' document(s) matching '' @ quote q @ '':''"
      "replicate 50 (CHR ''='')" "\<lambda>r. [CHR 0x0A] @ ''Document: '' @ sr_doc_id r"
      "\<lambda>r. ''  Matches: '' @ str_nat (match_count r)" "\<lambda>r. ''  Excerpt: '' @ excerpt r"]
  obtain pre post where "search_documents s q cs
      = pre @ [CHR 0x0A] @ ([CHR 0x0A] @ ''Document: '' @ d)
        @ [CHR 0x0A] @ (''  Matches: '' @ str_nat (length (m # ms)))
        @ [CHR 0x0A] @ (''  Excerpt: '' @ spec_excerpt (content doc) q m) @ post"
    unfolding out by auto
  then have block: "\<exists>pre post. search_documents s q cs
                 = pre @ [CHR 0x0A] @ [CHR 0x0A] @ ''Document: '' @ d
                   @ [CHR 0x0A] @ ''  Matches: '' @ str_nat (length (m # ms))
                   @ [CHR 0x0A] @ ''  Excerpt: '' @ spec_excerpt (content doc) q m @ post"
    by (metis append.assoc)
  from found le here first single out block show ?thesis by blast
qed

theorem search_reports_first_match_witness:
  "py_strip ''NEEDLE'' \<noteq> [] \<and> distinct (map fst (document_cache store_long))
   \<and> (''long'', read_document ''long'' long_text) \<in> set (document_cache store_long)
   \<and> match_here False ''NEEDLE'' (drop 61 (content (read_document ''long'' long_text)))
   \<and> filter (\<lambda>r. sr_doc_id r = ''long'') (search_results store_long ''NEEDLE'' False)
       = [\<lparr>sr_doc_id = ''long'', sr_filename = ''long.md'', match_count = 1,
           excerpt = ''...'' @ replicate 49 (CHR ''x'') @ '' needle ''
                     @ replicate 49 (CHR ''y'') @ ''...''\<rparr>]
   \<and> search_documents store_long ''NEEDLE'' False
       = ''Found 1 document(s) matching '' @ quote ''NEEDLE'' @ '':'' @ [CHR 0x0A]
         @ replicate 50 (CHR ''='') @ [CHR 0x0A]
         @ [CHR 0x0A] @ ''Document: long'' @ [CHR 0x0A]
         @ ''  Matches: 1'' @ [CHR 0x0A]
         @ ''  Excerpt: ...'' @ replicate 49 (CHR ''x'') @ '' needle ''
         @ replicate 49 (CHR ''y'') @ ''...''"
proof -
  have h1: "py_strip ''NEEDLE'' \<noteq> []" by (simp add: strip_NEEDLE)
  have h2: "distinct (map fst (document_cache store_long))"
    by (simp add: store_long_def)
  have h3: "(''long'', read_document ''long'' long_text) \<in> set (document_cache store_long)"
    by (simp add: store_long_def)
  have c: "content (read_document ''long'' long_text) = long_text"
    and f: "filename (read_document ''long'' long_text) = ''long.md''"
    by (simp_all add: read_document_def long_text_read)
  have h4: "match_here False ''NEEDLE'' (drop 61 (content (read_document ''long'' long_text)))"
    unfolding c by (rule match_NEEDLE)
  let ?r = "\<lparr>sr_doc_id = ''long'', sr_filename = ''long.md'', match_count = 1,
           excerpt = ''...'' @ replicate 49 (CHR ''x'') @ '' needle ''
                     @ replicate 49 (CHR ''y'') @ ''...''\<rparr>"
  from search_reports_first_match [OF h1 h2 h3 h4]
  obtain m ms where found: "finditer False ''NEEDLE'' long_text 0 = m # ms"
    and single: "filter (\<lambda>r. sr_doc_id r = ''long'') (search_results store_long ''NEEDLE'' False)
      = [\<lparr>sr_doc_id = ''long'', sr_filename = ''long.md'', match_count = length (m # ms),
          excerpt = spec_excerpt long_text ''NEEDLE'' m\<rparr>]"
    and out: "search_documents store_long ''NEEDLE'' False
      = py_join [CHR 0x0A]
          ([''Found '' @ str_nat (length (search_results store_long ''NEEDLE'' False))
              @ '' document(s) matching '' @ quote ''NEEDLE'' @ '':'',
            replicate 50 (CHR ''='')]
           @ concat (map (\<lambda>r. [[CHR 0x0A] @ ''Document: '' @ sr_doc_id r,
                                 ''  Matches: '' @ str_nat (match_count r),
                                 ''  Excerpt: '' @ excerpt r])
                         (search_results store_long ''NEEDLE'' False)))"
    unfolding c f by blast
  from found have m: "m = 61" and ms: "ms = []"
    by (simp_all add: finditer_NEEDLE)
  have single': "filter (\<lambda>r. sr_doc_id r = ''long'') (search_results store_long ''NEEDLE'' False)
      = [?r]"
    using single by (simp add: m ms excerpt_NEEDLE)
  have whole: "search_results store_long ''NEEDLE'' False
      = filter (\<lambda>r. sr_doc_id r = ''long'') (search_results store_long ''NEEDLE'' False)"
    by (simp add: search_results_def store_long_def search_one_def Let_def split: list.splits)
  have rendered: "search_documents store_long ''NEEDLE'' False
       = ''Found 1 document(s) matching '' @ quote ''NEEDLE'' @ '':'' @ [CHR 0x0A]
         @ replicate 50 (CHR ''='') @ [CHR 0x0A]
         @ [CHR 0x0A] @ ''Document: long'' @ [CHR 0x0A]
         @ ''  Matches: 1'' @ [CHR 0x0A]
         @ ''  Excerpt: ...'' @ replicate 49 (CHR ''x'') @ '' needle ''
         @ replicate 49 (CHR ''y'') @ ''...''"
    unfolding out by (subst (1 2) whole) (simp add: single' str_nat_1)
  from h1 h2 h3 h4 single' rendered show ?thesis by blast
qed

subsection \<open>Listing the versions of a document\<close>

text \<open>C6 asks \<^verbatim>\<open>list_versions(d)\<close> for the snapshots of \<open>d\<close> and of no other document.
  The code at a store with the documents \<^verbatim>\<open>a\<close> and \<^verbatim>\<open>a_b\<close>, after one update of
  \<^verbatim>\<open>a_b\<close>: the archive holds the single snapshot of \<^verbatim>\<open>a_b\<close>, document \<^verbatim>\<open>a\<close> has none,
  and \<^verbatim>\<open>list_versions("a")\<close> lists one version, labelled \<^verbatim>\<open>b_20240101_120000\<close>, with
  the size of the content of \<^verbatim>\<open>a_b\<close>: the pattern \<^verbatim>\<open>a_*.md\<close> matches the snapshot file
  \<^verbatim>\<open>a_b_20240101_120000.md\<close>. This holds whatever \<^verbatim>\<open>strptime\<close> answers.\<close>

theorem list_versions_foreign_snapshot:
  "list_all id_char ''a'' \<and> list_all id_char ''a_b''
   \<and> has_key ''a'' (document_cache store_prefix_updated)
   \<and> versions_dir store_prefix_updated = [(version_file ''a_b'' stamp1, ''notes'')]
   \<and> map timestamp_str (version_entries strptime store_prefix_updated ''a'')
       = [''b_20240101_120000'']
   \<and> map version_size (version_entries strptime store_prefix_updated ''a'') = [5]"
proof -
  have "has_key ''a'' (document_cache store_prefix_updated)"
    by (simp add: store_prefix_updated_def store_prefix_def update_document_def
        save_version_def write_document_def load_documents_def scan_documents_def)
  moreover have "version_file ''a_b'' stamp1 = ''a_b_20240101_120000.md''"
    by (simp add: version_file_def stamp1_def)
  moreover have "list_all id_char ''a''" and "list_all id_char ''a_b''"
    by code_simp+
  ultimately show ?thesis
    by (simp add: store_prefix_updated_versions version_entries_def version_info_def
        glob_a label_a size_notes Let_def)
qed

text \<open>The label is cut out of the file name with \<^verbatim>\<open>str.replace\<close>, which removes every
  occurrence of \<^verbatim>\<open>doc_id_\<close>: for the document \<^verbatim>\<open>1\<close> the snapshot of
  \<^verbatim>\<open>20240101_120000\<close> is listed under a label that names no snapshot.\<close>

lemma list_versions_mangled_label:
  "map timestamp_str
     (version_entries strptime (fst (update_document store_digit ''1'' ''two'' stamp1)) ''1'')
     = [''2024010120000'']"
  by (simp add: store_digit_versions version_entries_def version_info_def glob_1 label_1 Let_def)

end
